theory Spec2Isabelle
  imports Main "HOL-Library.Finite_Map" "HOL-Library.Word"
begin

unbundle bit_operations_syntax

section \<open>Events and the key namer (log\_parser.go)\<close>

text \<open>
  An event is Go's \<open>map[string]interface{}\<close>: a finite map from field names to the values
  that \<open>parseString\<close> produces. \<open>time.Time\<close> is opaque to the program and is the type
  parameter \<open>'t\<close>; an \<open>int64\<close> is an \<open>int\<close> (no arithmetic is done on it after parsing,
  \<open>ParseInt\<close> checks the range); a \<open>float64\<close> is its IEEE 754 bit pattern.
\<close>

type_synonym float64 = "64 word"

datatype 't val =
    VTime 't
  | VInt int
  | VBool bool
  | VFloat float64
  | VText string

type_synonym 't event = "(string, 't val) fmap"

text \<open>
  \<open>newKeyName\<close> recurses with one more underscore for as long as the name is a key of the
  map. The map is finite, so the names that are keys have a longest one, and the recursion
  ends once the name is longer than that.
\<close>

definition maxKeyLen :: "(string, 'v) fmap \<Rightarrow> nat" where
  "maxKeyLen m = (if fmdom' m = {} then 0 else Max (length ` fmdom' m))"

function newKeyName :: "string \<Rightarrow> (string, 'v) fmap \<Rightarrow> string" where
  "newKeyName k m =
     (case fmlookup m k of
        None \<Rightarrow> k
      | Some _ \<Rightarrow> newKeyName (CHR ''_'' # k) m)"
  by pat_completeness auto
termination
proof (relation "measure (\<lambda>(k, m). Suc (maxKeyLen m) - length k)")
  show "wf (measure (\<lambda>(k, m). Suc (maxKeyLen m) - length k))"
    by simp
next
  fix k :: string and m :: "(string, 'v) fmap" and x
  assume "fmlookup m k = Some x"
  then have k: "k \<in> fmdom' m"
    by (rule fmdom'I)
  have fin: "finite (length ` fmdom' m)"
    by (simp add: fmdom'_alt_def)
  from k have "length k \<in> length ` fmdom' m"
    by (rule imageI)
  with fin have "length k \<le> Max (length ` fmdom' m)"
    by (rule Max_ge)
  with k have "length k \<le> maxKeyLen m"
    by (auto simp: maxKeyLen_def)
  then show "((CHR ''_'' # k, m), (k, m)) \<in> measure (\<lambda>(k, m). Suc (maxKeyLen m) - length k)"
    by simp
qed

section \<open>Configuration and library interfaces\<close>

text \<open>
  The program reads its configuration through viper's accessors only; a configuration is
  the four accessors it calls, each a function of the (dotted) key. viper answers
  \<open>False\<close>, the empty string and the empty slice for a key that is not set.
\<close>

record viper =
  IsSet :: "string \<Rightarrow> bool"
  GetBool :: "string \<Rightarrow> bool"
  GetString :: "string \<Rightarrow> string"
  GetStringSlice :: "string \<Rightarrow> string list"

definition emptyViper :: viper where
  "emptyViper =
     \<lparr>IsSet = (\<lambda>_. False), GetBool = (\<lambda>_. False),
      GetString = (\<lambda>_. []), GetStringSlice = (\<lambda>_. [])\<rparr>"

definition configParseKeysToIgnore :: string where
  "configParseKeysToIgnore = ''parse.keys_to_ignore''"

definition configParseTimePatterns :: string where
  "configParseTimePatterns = ''parse.time_patterns''"

definition configParsePattern :: string where
  "configParsePattern = ''parse.pattern''"

definition configTailReopen :: string where
  "configTailReopen = ''time.reopen''"

definition DefaultParseLogPattern :: string where
  "DefaultParseLogPattern = []"

text \<open>
  A compiled \<open>*regexp.Regexp\<close>, as far as the program uses it: \<open>FindStringSubmatch\<close>
  (\<open>None\<close> is the nil slice of a line that does not match) and \<open>SubexpNames\<close>.
\<close>

record Regexp =
  FindStringSubmatch :: "string \<Rightarrow> string list option"
  SubexpNames :: "string list"

text \<open>
  The library functions whose code is not part of the repository are parameters of the
  model: \<open>time.Parse layout value\<close>, \<open>strconv.ParseFloat s 64\<close>, \<open>regexp.Compile\<close>
  (\<open>None\<close> where Go returns an error), and \<open>url.Parse\<close> followed by \<open>Query()\<close>, which
  gives the query parameters in the order in which the \<open>range\<close> over the map visits them
  (any order: every theorem below holds for every such function).
\<close>

record 't golib =
  timeParse :: "string \<Rightarrow> string \<Rightarrow> 't option"
  ParseFloat :: "string \<Rightarrow> float64 option"
  regexpCompile :: "string \<Rightarrow> Regexp option"
  urlQuery :: "string \<Rightarrow> (string \<times> string list) list option"

section \<open>strconv.ParseInt and strconv.ParseBool\<close>

text \<open>
  \<open>strconv.ParseInt s 10 64\<close>: an optional sign, then \<open>ParseUint\<close> on the rest (decimal
  digits only, at least one, the value below \<open>2^64\<close>), then the range of \<open>int64\<close>.
  Every error of Go's is \<open>None\<close>.
\<close>

definition digitVal :: "char \<Rightarrow> nat option" where
  "digitVal c =
     (let n = (of_char c :: nat) in if 48 \<le> n \<and> n \<le> 57 then Some (n - 48) else None)"

fun ParseUintLoop :: "nat \<Rightarrow> string \<Rightarrow> nat option" where
  "ParseUintLoop n [] = Some n"
| "ParseUintLoop n (c # cs) =
     (case digitVal c of
        None \<Rightarrow> None
      | Some d \<Rightarrow> if 2 ^ 64 \<le> n * 10 + d then None else ParseUintLoop (n * 10 + d) cs)"

definition ParseUint :: "string \<Rightarrow> nat option" where
  "ParseUint s = (if s = [] then None else ParseUintLoop 0 s)"

definition ParseInt :: "string \<Rightarrow> int option" where
  "ParseInt s =
     (case s of
        [] \<Rightarrow> None
      | c # cs \<Rightarrow>
          (let neg = (c = CHR ''-'');
               s0 = (if c = CHR ''+'' \<or> c = CHR ''-'' then cs else s)
           in case ParseUint s0 of
                None \<Rightarrow> None
              | Some un \<Rightarrow>
                  if \<not> neg \<and> 2 ^ 63 \<le> un then None
                  else if neg \<and> 2 ^ 63 < un then None
                  else Some (if neg then - int un else int un)))"

text \<open>\<open>strconv.ParseBool\<close> is a switch over twelve literal strings.\<close>

definition ParseBool :: "string \<Rightarrow> bool option" where
  "ParseBool str =
     (if str \<in> set [''1'', ''t'', ''T'', ''TRUE'', ''true'', ''True''] then Some True
      else if str \<in> set [''0'', ''f'', ''F'', ''FALSE'', ''false'', ''False''] then Some False
      else None)"

text \<open>
  \<open>math.IsNaN f\<close> is \<open>f != f\<close>: true exactly of the bit patterns with all eleven
  exponent bits set and a fraction that is not zero. The literal \<open>0.0\<close> is the pattern 0.
\<close>

definition IsNaN :: "float64 \<Rightarrow> bool" where
  "IsNaN f \<longleftrightarrow> drop_bit 52 f AND 0x7FF = 0x7FF \<and> f AND 0xFFFFFFFFFFFFF \<noteq> 0"

section \<open>The type inferencer: parseString\<close>

definition nginxFormat :: string where
  "nginxFormat = ''02/Jan/2006:15:04:05 -0700''"

definition ANSIC :: string where
  "ANSIC = ''Mon Jan _2 15:04:05 2006''"

definition UnixDate :: string where
  "UnixDate = ''Mon Jan _2 15:04:05 MST 2006''"

definition RubyDate :: string where
  "RubyDate = ''Mon Jan 02 15:04:05 -0700 2006''"

definition RFC822 :: string where
  "RFC822 = ''02 Jan 06 15:04 MST''"

definition RFC822Z :: string where
  "RFC822Z = ''02 Jan 06 15:04 -0700''"

definition RFC850 :: string where
  "RFC850 = ''Monday, 02-Jan-06 15:04:05 MST''"

definition RFC1123 :: string where
  "RFC1123 = ''Mon, 02 Jan 2006 15:04:05 MST''"

definition RFC1123Z :: string where
  "RFC1123Z = ''Mon, 02 Jan 2006 15:04:05 -0700''"

definition RFC3339 :: string where
  "RFC3339 = ''2006-01-02T15:04:05Z07:00''"

definition RFC3339Nano :: string where
  "RFC3339Nano = ''2006-01-02T15:04:05.999999999Z07:00''"

text \<open>The loop over the configured time patterns: the first one that parses returns.\<close>

fun tryTimePatterns :: "'t golib \<Rightarrow> string list \<Rightarrow> string \<Rightarrow> 't option" where
  "tryTimePatterns L [] ts = None"
| "tryTimePatterns L (timePattern # rest) ts =
     (case timeParse L timePattern ts of
        Some t \<Rightarrow> Some t
      | None \<Rightarrow> tryTimePatterns L rest ts)"

definition parseString :: "'t golib \<Rightarrow> string \<Rightarrow> viper \<Rightarrow> 't val" where
  "parseString L ts config =
     (case tryTimePatterns L (GetStringSlice config configParseTimePatterns) ts of
        Some t \<Rightarrow> VTime t | None \<Rightarrow>
     (case timeParse L nginxFormat ts of Some t \<Rightarrow> VTime t | None \<Rightarrow>
     (case timeParse L ANSIC ts of Some t \<Rightarrow> VTime t | None \<Rightarrow>
     (case timeParse L UnixDate ts of Some t \<Rightarrow> VTime t | None \<Rightarrow>
     (case timeParse L RubyDate ts of Some t \<Rightarrow> VTime t | None \<Rightarrow>
     (case timeParse L RFC822 ts of Some t \<Rightarrow> VTime t | None \<Rightarrow>
     (case timeParse L RFC822Z ts of Some t \<Rightarrow> VTime t | None \<Rightarrow>
     (case timeParse L RFC850 ts of Some t \<Rightarrow> VTime t | None \<Rightarrow>
     (case timeParse L RFC1123 ts of Some t \<Rightarrow> VTime t | None \<Rightarrow>
     (case timeParse L RFC1123Z ts of Some t \<Rightarrow> VTime t | None \<Rightarrow>
     (case timeParse L RFC3339 ts of Some t \<Rightarrow> VTime t | None \<Rightarrow>
     (case timeParse L RFC3339Nano ts of Some t \<Rightarrow> VTime t | None \<Rightarrow>
     (case ParseInt ts of Some pi \<Rightarrow> VInt pi | None \<Rightarrow>
     (case ParseBool ts of Some pb \<Rightarrow> VBool pb | None \<Rightarrow>
     (case ParseFloat L ts of
        Some pf \<Rightarrow> if \<not> IsNaN pf then VFloat pf else VFloat 0
      | None \<Rightarrow> VText ts)))))))))))))))"

subsection \<open>The inferencer as the specification words it\<close>

text \<open>
  \<open>infer raw timeFormats\<close>: a list of attempts in the documented order, the first success
  wins, and the text itself is the answer when none succeeds. The attempts are: each
  configured time format in order, each fixed fallback timestamp format, the signed 64-bit
  integer parse, the boolean parse, the 64-bit float parse (a NaN becoming the float zero).
\<close>

definition fallbackLayouts :: "string list" where
  "fallbackLayouts =
     [nginxFormat, ANSIC, UnixDate, RubyDate, RFC822, RFC822Z, RFC850, RFC1123, RFC1123Z,
      RFC3339, RFC3339Nano]"

fun firstSuccess :: "('a \<Rightarrow> 'b option) list \<Rightarrow> 'a \<Rightarrow> 'b option" where
  "firstSuccess [] x = None"
| "firstSuccess (f # fs) x = (case f x of Some y \<Rightarrow> Some y | None \<Rightarrow> firstSuccess fs x)"

definition asTime :: "'t golib \<Rightarrow> string \<Rightarrow> string \<Rightarrow> 't val option" where
  "asTime L layout raw = map_option VTime (timeParse L layout raw)"

definition asInt :: "string \<Rightarrow> 't val option" where
  "asInt raw = map_option VInt (ParseInt raw)"

definition asBool :: "string \<Rightarrow> 't val option" where
  "asBool raw = map_option VBool (ParseBool raw)"

definition asFloat :: "'t golib \<Rightarrow> string \<Rightarrow> 't val option" where
  "asFloat L raw = map_option (\<lambda>f. VFloat (if IsNaN f then 0 else f)) (ParseFloat L raw)"

definition infer :: "'t golib \<Rightarrow> string \<Rightarrow> string list \<Rightarrow> 't val" where
  "infer L raw timeFormats =
     (case firstSuccess
             (map (asTime L) timeFormats @ map (asTime L) fallbackLayouts
                @ [asInt, asBool, asFloat L]) raw of
        Some v \<Rightarrow> v
      | None \<Rightarrow> VText raw)"

section \<open>The line parser\<close>

text \<open>
  The fields of \<open>LogParser\<close> that the parsing code reads. \<open>regex\<close> is a pointer:
  \<open>None\<close> is the nil of a worker on which no pattern has been compiled. The channel and
  the tailer belong to the concurrent part of the program and are left out.
\<close>

record LogParser =
  Config :: viper
  InputFile :: string
  regex :: "Regexp option"

text \<open>
  A call either returns or panics; a returned error is \<open>Failed\<close> with its message.
\<close>

datatype failure = Panic string | Failed string

fun sliceContains :: "string list \<Rightarrow> string \<Rightarrow> bool" where
  "sliceContains [] a = False"
| "sliceContains (b # list) a = (if b = a then True else sliceContains list a)"

definition shouldIgnore :: "LogParser \<Rightarrow> string \<Rightarrow> bool" where
  "shouldIgnore worker key \<longleftrightarrow>
     key = [] \<or> sliceContains (GetStringSlice (Config worker) configParseKeysToIgnore) key"

text \<open>
  \<open>ParseURI\<close>: the loop over the query parameters \<open>q\<close>, in the order of the range
  over the map. The name is computed against the event as it is at that moment, so a
  parameter stored earlier in the loop counts as a collision for a later one.
\<close>

fun ParseURILoop ::
  "'t golib \<Rightarrow> LogParser \<Rightarrow> (string \<times> string list) list \<Rightarrow> 't event \<Rightarrow> 't event" where
  "ParseURILoop L worker [] v = v"
| "ParseURILoop L worker ((k, kvs) # q) v =
     (let newKey = newKeyName k v in
      if \<not> shouldIgnore worker newKey \<and> 0 < length kvs
      then ParseURILoop L worker q (fmupd newKey (parseString L (kvs ! 0) (Config worker)) v)
      else ParseURILoop L worker q v)"

definition ParseURI :: "'t golib \<Rightarrow> LogParser \<Rightarrow> string \<Rightarrow> 't event \<Rightarrow> 't event" where
  "ParseURI L worker uri v =
     (if uri \<noteq> [] then
        (case urlQuery L uri of
           Some q \<Rightarrow> ParseURILoop L worker q v
         | None \<Rightarrow> v)
      else v)"

text \<open>
  \<open>ParseEvents\<close>: the loop \<open>for i, submatch := range match\<close>, with \<open>i\<close> the index
  of the head of the remaining submatches. \<open>names[i]\<close> panics when \<open>i\<close> is out of range.
  Calling \<open>FindStringSubmatch\<close> on a nil \<open>*Regexp\<close> reads a field through the nil
  pointer and panics.
\<close>

fun ParseEventsLoop ::
  "'t golib \<Rightarrow> LogParser \<Rightarrow> string list \<Rightarrow> nat \<Rightarrow> string list \<Rightarrow> 't event
     \<Rightarrow> failure + 't event" where
  "ParseEventsLoop L worker names i [] v = Inr v"
| "ParseEventsLoop L worker names i (submatch # rest) v =
     (if length names \<le> i then Inl (Panic ''index out of range'')
      else
        (let name = names ! i;
             v1 = (if \<not> shouldIgnore worker name
                   then fmupd (names ! i) (parseString L submatch (Config worker)) v
                   else v);
             v2 = (if name = ''uri'' then ParseURI L worker submatch v1 else v1)
         in ParseEventsLoop L worker names (Suc i) rest v2))"

definition ParseEvents :: "'t golib \<Rightarrow> LogParser \<Rightarrow> string \<Rightarrow> failure + 't event" where
  "ParseEvents L worker line =
     (case regex worker of
        None \<Rightarrow> Inl (Panic ''invalid memory address or nil pointer dereference'')
      | Some re \<Rightarrow>
          (case FindStringSubmatch re line of
             Some match \<Rightarrow> ParseEventsLoop L worker (SubexpNames re) 0 match fmempty
           | None \<Rightarrow> Inl (Failed (''Line '' @ line @ '' did not match pattern.''))))"

section \<open>The tail configuration and Init\<close>

text \<open>
  \<open>tail.Config\<close>, with the fields that \<open>convertConfig\<close> assigns; the others keep their
  zero value. A nil \<open>Location\<close> makes the tail library read from the start of the file;
  \<open>SeekInfo{0, os.SEEK_END}\<close> makes it start at the end.
\<close>

record SeekInfo =
  Offset :: int
  Whence :: int

definition SEEK_END :: int where
  "SEEK_END = 2"

datatype logger = NilLogger | DiscardingLogger

record tailConfig =
  Location :: "SeekInfo option"
  ReOpen :: bool
  Follow :: bool
  Logger :: logger

definition convertConfig :: "LogParser \<Rightarrow> tailConfig" where
  "convertConfig worker =
     (let config = \<lparr>Location = None, ReOpen = False, Follow = False, Logger = NilLogger\<rparr>;
          config = (if \<not> GetBool (Config worker) ''tail.from_beginng''
                    then config\<lparr>Location := Some \<lparr>Offset = 0, Whence = SEEK_END\<rparr>\<rparr>
                    else config);
          config = (if IsSet (Config worker) ''tail.reopen''
                    then config\<lparr>ReOpen := GetBool (Config worker) configTailReopen\<rparr>
                    else config)
      in config\<lparr>Follow := True, Logger := DiscardingLogger\<rparr>)"

text \<open>
  Log output is a list of entries, the newest last. \<open>Init\<close> returns the worker and what
  it logged; the text of Go's error value is not part of the model.
\<close>

datatype level = Debug | Info | Warn

type_synonym logentry = "level \<times> string"

definition Init :: "'t golib \<Rightarrow> LogParser \<Rightarrow> LogParser \<times> logentry list" where
  "Init L worker =
     (let pattern = GetString (Config worker) configParsePattern;
          pattern = (if pattern = [] then DefaultParseLogPattern else pattern)
      in case regexpCompile L pattern of
           None \<Rightarrow> (worker, [(Warn, ''Could not compile Regex.'')])
         | Some re \<Rightarrow> (worker\<lparr>regex := Some re\<rparr>, []))"

section \<open>The sink worker (file.go)\<close>

text \<open>
  The worker's \<open>*os.File\<close> points to a handle that lives outside the worker, so the
  handles are a store: a handle number maps to the path it was opened on and to whether it
  has been closed. The file system maps a path to the file's content. \<open>Close\<close> and
  \<open>WriteString\<close> on a nil or closed \<open>*os.File\<close> return an error (which the program
  drops) and change nothing.
\<close>

record World =
  files :: "(string, string) fmap"
  handles :: "(nat, string \<times> bool) fmap"
  logs :: "logentry list"

record FileWorker =
  outFileName :: string
  out :: "nat option"

text \<open>
  What the operating system and \<open>encoding/json\<close> decide: the error of opening a path
  (\<open>None\<close> when it opens), and the marshalled text of an object (\<open>None\<close> on error).
\<close>

record 'o oslib =
  openErr :: "string \<Rightarrow> string option"
  jsonMarshal :: "'o \<Rightarrow> string option"

definition logAdd :: "level \<Rightarrow> string \<Rightarrow> World \<Rightarrow> World" where
  "logAdd lv text world = world\<lparr>logs := logs world @ [(lv, text)]\<rparr>"

definition freshHandle :: "(nat, 'a) fmap \<Rightarrow> nat" where
  "freshHandle hs = (if fmdom' hs = {} then 0 else Suc (Max (fmdom' hs)))"

definition Close :: "nat \<Rightarrow> World \<Rightarrow> World" where
  "Close h world =
     (case fmlookup (handles world) h of
        Some (path, _) \<Rightarrow> world\<lparr>handles := fmupd h (path, True) (handles world)\<rparr>
      | None \<Rightarrow> world)"

text \<open>\<open>os.OpenFile fileName (O_APPEND|O_CREATE|O_WRONLY) 0666\<close>.\<close>

definition OpenFile :: "'o oslib \<Rightarrow> string \<Rightarrow> World \<Rightarrow> (string + nat) \<times> World" where
  "OpenFile E fileName world =
     (case openErr E fileName of
        Some err \<Rightarrow> (Inl err, world)
      | None \<Rightarrow>
          (let h = freshHandle (handles world)
           in (Inr h,
               world\<lparr>files :=
                        (case fmlookup (files world) fileName of
                           None \<Rightarrow> fmupd fileName [] (files world)
                         | Some _ \<Rightarrow> files world),
                      handles := fmupd h (fileName, False) (handles world)\<rparr>)))"

definition WriteString :: "nat option \<Rightarrow> string \<Rightarrow> World \<Rightarrow> World" where
  "WriteString f s world =
     (case f of
        None \<Rightarrow> world
      | Some h \<Rightarrow>
          (case fmlookup (handles world) h of
             None \<Rightarrow> world
           | Some (path, closed) \<Rightarrow>
               if closed then world
               else world\<lparr>files :=
                      fmupd path
                        ((case fmlookup (files world) path of None \<Rightarrow> [] | Some c \<Rightarrow> c) @ s)
                        (files world)\<rparr>))"

text \<open>The global viper configuration is read at every call, so it is an argument.\<close>

definition ConfiguredFileOutputName :: "viper \<Rightarrow> string" where
  "ConfiguredFileOutputName cfg =
     (let key = ''file.output''
      in if IsSet cfg key then GetString cfg key else ''output.jsonl'')"

definition CachedFileHandle ::
  "'o oslib \<Rightarrow> viper \<Rightarrow> FileWorker \<times> World \<Rightarrow> nat option \<times> FileWorker \<times> World" where
  "CachedFileHandle E cfg ww =
     (let w = fst ww; world = snd ww; fileName = ConfiguredFileOutputName cfg
      in if fileName \<noteq> outFileName w then
           (let world1 = (case out w of Some h \<Rightarrow> Close h world | None \<Rightarrow> world)
            in case OpenFile E fileName world1 of
                 (Inl err, world2) \<Rightarrow>
                   (out w, w,
                    logAdd Warn
                      (''Unable to create output file '' @ fileName @ '' because of '' @ err)
                      world2)
               | (Inr handle, world2) \<Rightarrow>
                   (Some handle, w\<lparr>outFileName := fileName, out := Some handle\<rparr>, world2))
         else (out w, w, world))"

definition FileWorker_Init :: "'o oslib \<Rightarrow> viper \<Rightarrow> FileWorker \<times> World \<Rightarrow> FileWorker \<times> World" where
  "FileWorker_Init E cfg ww = snd (CachedFileHandle E cfg ww)"

text \<open>
  \<open>Work\<close> selects on two channels. What it receives is a list of messages: an object,
  with the configuration in force when it arrives, or the quit signal.
\<close>

datatype 'o msg = Obj viper 'o | Quit

definition WorkObj :: "'o oslib \<Rightarrow> viper \<Rightarrow> 'o \<Rightarrow> FileWorker \<times> World \<Rightarrow> FileWorker \<times> World" where
  "WorkObj E cfg obj ww =
     (let w = fst ww; world = logAdd Debug ''Worker received'' (snd ww)
      in case jsonMarshal E obj of
           None \<Rightarrow> (w, logAdd Info ''Unable to marshal object'' world)
         | Some line \<Rightarrow>
             (case CachedFileHandle E cfg (w, world) of
                (f, w1, world1) \<Rightarrow>
                  (w1, WriteString f [CHR 0x0A] (WriteString f line world1))))"

fun WorkLoop :: "'o oslib \<Rightarrow> 'o msg list \<Rightarrow> FileWorker \<times> World \<Rightarrow> FileWorker \<times> World" where
  "WorkLoop E [] ww = ww"
| "WorkLoop E (Obj cfg obj # ms) ww = WorkLoop E ms (WorkObj E cfg obj ww)"
| "WorkLoop E (Quit # ms) ww = (fst ww, logAdd Info ''Worker received quit'' (snd ww))"

definition Work :: "'o oslib \<Rightarrow> 'o msg list \<Rightarrow> FileWorker \<times> World \<Rightarrow> FileWorker \<times> World" where
  "Work E ms ww = WorkLoop E ms (fst ww, logAdd Info ''FileWorker starting work'' (snd ww))"

section \<open>Example inputs\<close>

text \<open>
  A library for the examples: no layout parses a time, the only float is \<open>NaN\<close>, two
  patterns compile, two URIs have a query. On the texts of the examples Go's functions
  answer the same.
\<close>

definition accessPattern :: string where
  "accessPattern = ''^(?P<ip>[^ ]+) (?P<method>[^ ]+) (?P<uri>[^ ]+) (?P<status>[0-9]+)$''"

definition accessLine :: string where
  "accessLine = ''10.0.0.1 GET /search?q=5&lang=en 200''"

definition accessRegexp :: Regexp where
  "accessRegexp =
     \<lparr>FindStringSubmatch =
        (\<lambda>line. if line = accessLine
           then Some [accessLine, ''10.0.0.1'', ''GET'', ''/search?q=5&lang=en'', ''200'']
           else None),
      SubexpNames = ['''', ''ip'', ''method'', ''uri'', ''status'']\<rparr>"

definition uriFirstPattern :: string where
  "uriFirstPattern = ''^(?P<uri>[^ ]+) (?P<q>[0-9]+)$''"

definition uriFirstRegexp :: Regexp where
  "uriFirstRegexp =
     \<lparr>FindStringSubmatch =
        (\<lambda>line. if line = ''/s?q=5 7'' then Some [''/s?q=5 7'', ''/s?q=5'', ''7''] else None),
      SubexpNames = ['''', ''uri'', ''q'']\<rparr>"

definition exampleLib :: "unit golib" where
  "exampleLib =
     \<lparr>timeParse = (\<lambda>_ _. None),
      ParseFloat = (\<lambda>s. if s = ''NaN'' then Some 0x7FF8000000000001 else None),
      regexpCompile =
        (\<lambda>p. if p = accessPattern then Some accessRegexp
             else if p = uriFirstPattern then Some uriFirstRegexp
             else None),
      urlQuery =
        (\<lambda>u. if u = ''/search?q=5&lang=en'' then Some [(''q'', [''5'']), (''lang'', [''en''])]
             else if u = ''/s?q=5'' then Some [(''q'', [''5''])]
             else None)\<rparr>"

definition patternViper :: "string \<Rightarrow> string list \<Rightarrow> viper" where
  "patternViper pattern ignored =
     \<lparr>IsSet = (\<lambda>k. k = ''parse.pattern'' \<or> k = ''parse.keys_to_ignore''),
      GetBool = (\<lambda>_. False),
      GetString = (\<lambda>k. if k = ''parse.pattern'' then pattern else []),
      GetStringSlice = (\<lambda>k. if k = ''parse.keys_to_ignore'' then ignored else [])\<rparr>"

definition idleWorker :: "viper \<Rightarrow> LogParser" where
  "idleWorker cfg = \<lparr>Config = cfg, InputFile = ''access.log'', regex = None\<rparr>"

definition boolViper :: "string \<Rightarrow> bool \<Rightarrow> viper" where
  "boolViper key b =
     \<lparr>IsSet = (\<lambda>k. k = key), GetBool = (\<lambda>k. k = key \<and> b),
      GetString = (\<lambda>_. []), GetStringSlice = (\<lambda>_. [])\<rparr>"

definition outputViper :: "string \<Rightarrow> viper" where
  "outputViper path =
     \<lparr>IsSet = (\<lambda>k. k = ''file.output''), GetBool = (\<lambda>_. False),
      GetString = (\<lambda>k. if k = ''file.output'' then path else []),
      GetStringSlice = (\<lambda>_. [])\<rparr>"

definition exampleOS :: "string oslib" where
  "exampleOS =
     \<lparr>openErr = (\<lambda>p. if p = ''/nodir/b.jsonl'' then Some ''no such file or directory'' else None),
      jsonMarshal = (\<lambda>obj. Some obj)\<rparr>"

definition emptyWorld :: World where
  "emptyWorld = \<lparr>files = fmempty, handles = fmempty, logs = []\<rparr>"

definition idleFileWorker :: FileWorker where
  "idleFileWorker = \<lparr>outFileName = [], out = None\<rparr>"

section \<open>Auxiliary definitions\<close>

text \<open>The steps of \<open>parseString\<close> after the time formats.\<close>

definition afterTime :: "'t golib \<Rightarrow> string \<Rightarrow> 't val" where
  "afterTime L ts =
     (case ParseInt ts of Some pi \<Rightarrow> VInt pi | None \<Rightarrow>
     (case ParseBool ts of Some pb \<Rightarrow> VBool pb | None \<Rightarrow>
     (case ParseFloat L ts of
        Some pf \<Rightarrow> if \<not> IsNaN pf then VFloat pf else VFloat 0
      | None \<Rightarrow> VText ts)))"

text \<open>The body of the loop over the capture groups, and of the loop over the query parameters.\<close>

definition groupStep :: "'t golib \<Rightarrow> LogParser \<Rightarrow> string \<Rightarrow> string \<Rightarrow> 't event \<Rightarrow> 't event" where
  "groupStep L worker name submatch v =
     (let v1 = (if \<not> shouldIgnore worker name
                then fmupd name (parseString L submatch (Config worker)) v
                else v)
      in if name = ''uri'' then ParseURI L worker submatch v1 else v1)"

definition paramStep :: "'t golib \<Rightarrow> LogParser \<Rightarrow> string \<Rightarrow> string list \<Rightarrow> 't event \<Rightarrow> 't event" where
  "paramStep L worker k kvs v =
     (if \<not> shouldIgnore worker (newKeyName k v) \<and> 0 < length kvs
      then fmupd (newKeyName k v) (parseString L (kvs ! 0) (Config worker)) v
      else v)"

text \<open>An event is clean when none of its keys is an ignored name.\<close>

definition clean :: "LogParser \<Rightarrow> 't event \<Rightarrow> bool" where
  "clean worker v \<longleftrightarrow> (\<forall>k. shouldIgnore worker k \<longrightarrow> fmlookup v k = None)"

text \<open>The events and workers of the examples.\<close>

definition accessWorker :: LogParser where
  "accessWorker = fst (Init exampleLib (idleWorker (patternViper accessPattern [''lang'', ''method''])))"

definition uriFirstWorker :: LogParser where
  "uriFirstWorker = fst (Init exampleLib (idleWorker (patternViper uriFirstPattern [])))"

definition accessEvent :: "unit event" where
  "accessEvent =
     fmupd ''status'' (VInt 200)
       (fmupd ''q'' (VInt 5)
         (fmupd ''uri'' (VText ''/search?q=5&lang=en'')
           (fmupd ''ip'' (VText ''10.0.0.1'') fmempty)))"

definition uriFirstEvent :: "unit event" where
  "uriFirstEvent = fmupd ''q'' (VInt 7) (fmupd ''uri'' (VText ''/s?q=5'') fmempty)"

text \<open>
  The event of the loop of \<open>ParseEvents\<close> on the line \<open>/s?q=5 7\<close> when it reaches
  the group \<open>q\<close>.
\<close>

definition uriFirstBefore :: "unit event" where
  "uriFirstBefore = fmupd ''q'' (VInt 5) (fmupd ''uri'' (VText ''/s?q=5'') fmempty)"

text \<open>The worker after \<open>Init\<close> with the output path \<open>a.jsonl\<close>.\<close>

definition startedSink :: "FileWorker \<times> World" where
  "startedSink = FileWorker_Init exampleOS (outputViper ''a.jsonl'') (idleFileWorker, emptyWorld)"

text \<open>An event with the keys \<open>user\<close> and \<open>_user\<close>.\<close>

abbreviation twoUsers :: "unit event" where
  "twoUsers \<equiv> fmupd ''_user'' (VInt 2) (fmupd ''user'' (VInt 1) fmempty)"

section \<open>Properties of the key namer\<close>

declare newKeyName.simps [simp del]

lemma newKeyName_free [simp]: "fmlookup m k = None \<Longrightarrow> newKeyName k m = k"
  by (subst newKeyName.simps) simp

lemma newKeyName_taken [simp]:
  "fmlookup m k = Some x \<Longrightarrow> newKeyName k m = newKeyName (CHR ''_'' # k) m"
  by (subst newKeyName.simps) simp

lemma newKeyName_fresh: "fmlookup m (newKeyName k m) = None"
proof (induction k m rule: newKeyName.induct)
  case (1 k m)
  show ?case
  proof (cases "fmlookup m k")
    case None
    then show ?thesis by simp
  next
    case (Some x)
    with "1.IH" show ?thesis by simp
  qed
qed

lemma newKeyName_minimal:
  "\<exists>n. newKeyName k m = replicate n CHR ''_'' @ k
     \<and> (\<forall>j<n. fmlookup m (replicate j CHR ''_'' @ k) \<noteq> None)"
proof (induction k m rule: newKeyName.induct)
  case (1 k m)
  show ?case
  proof (cases "fmlookup m k")
    case None
    then have "newKeyName k m = replicate 0 CHR ''_'' @ k"
      by simp
    then show ?thesis
      by blast
  next
    case (Some x)
    from "1.IH" [OF Some] obtain n where
      eq: "newKeyName (CHR ''_'' # k) m = replicate n CHR ''_'' @ CHR ''_'' # k" and
      below: "\<forall>j<n. fmlookup m (replicate j CHR ''_'' @ CHR ''_'' # k) \<noteq> None"
      by blast
    from eq Some have "newKeyName k m = replicate (Suc n) CHR ''_'' @ k"
      by (simp add: replicate_app_Cons_same)
    moreover have "fmlookup m (replicate j CHR ''_'' @ k) \<noteq> None" if "j < Suc n" for j
    proof (cases j)
      case 0
      with Some show ?thesis by simp
    next
      case (Suc i)
      with that have "i < n" by simp
      with below have "fmlookup m (replicate i CHR ''_'' @ CHR ''_'' # k) \<noteq> None"
        by blast
      with Suc show ?thesis
        by (simp add: replicate_app_Cons_same)
    qed
    ultimately show ?thesis
      by blast
  qed
qed

subsection \<open>C8: the key namer\<close>

text \<open>
  C8. For every candidate name and every (finite) event, \<open>newKeyName\<close> returns a name that
  is not a key of the event, and that name is the candidate with \<open>n\<close> underscores in front,
  where \<open>n\<close> is the least number for which the prefixed name is not a key: every smaller
  number of underscores gives a key of the event (so \<open>n = 0\<close>, the candidate itself, exactly
  when there is no collision). The function is total: its termination is proved above.
\<close>

theorem newKeyName_unique_minimal:
  "\<exists>n. newKeyName k m = replicate n CHR ''_'' @ k
     \<and> fmlookup m (newKeyName k m) = None
     \<and> (\<forall>j<n. fmlookup m (replicate j CHR ''_'' @ k) \<noteq> None)"
  using newKeyName_minimal [of k m] newKeyName_fresh [of m k] by blast

theorem newKeyName_unique_minimal_witness:
  "newKeyName ''user'' twoUsers = ''__user''
   \<and> (\<exists>n. newKeyName ''user'' twoUsers = replicate n CHR ''_'' @ ''user''
        \<and> fmlookup twoUsers (newKeyName ''user'' twoUsers) = None
        \<and> (\<forall>j<n. fmlookup twoUsers (replicate j CHR ''_'' @ ''user'') \<noteq> None))"
proof
  show "newKeyName ''user'' twoUsers = ''__user''"
    by simp
next
  show "\<exists>n. newKeyName ''user'' twoUsers = replicate n CHR ''_'' @ ''user''
        \<and> fmlookup twoUsers (newKeyName ''user'' twoUsers) = None
        \<and> (\<forall>j<n. fmlookup twoUsers (replicate j CHR ''_'' @ ''user'') \<noteq> None)"
    by (rule newKeyName_unique_minimal)
qed

section \<open>Properties of the type inferencer\<close>

lemma tryTimePatterns_append:
  "tryTimePatterns L (xs @ ys) ts =
     (case tryTimePatterns L xs ts of Some t \<Rightarrow> Some t | None \<Rightarrow> tryTimePatterns L ys ts)"
  by (induction xs) (simp_all split: option.splits)

lemma firstSuccess_append:
  "firstSuccess (fs @ gs) x =
     (case firstSuccess fs x of Some y \<Rightarrow> Some y | None \<Rightarrow> firstSuccess gs x)"
  by (induction fs) (simp_all split: option.splits)

lemma firstSuccess_asTime:
  "firstSuccess (map (asTime L) ls) ts = map_option VTime (tryTimePatterns L ls ts)"
  by (induction ls) (simp_all add: asTime_def split: option.splits)

lemma parseString_by_layout_list:
  "parseString L ts config =
     (case tryTimePatterns L (GetStringSlice config configParseTimePatterns @ fallbackLayouts) ts of
        Some t \<Rightarrow> VTime t
      | None \<Rightarrow> afterTime L ts)"
  unfolding parseString_def afterTime_def tryTimePatterns_append fallbackLayouts_def
  by (simp split: option.split)

lemma infer_by_layout_list:
  "infer L ts tf =
     (case tryTimePatterns L (tf @ fallbackLayouts) ts of
        Some t \<Rightarrow> VTime t
      | None \<Rightarrow> afterTime L ts)"
  by (simp add: infer_def afterTime_def firstSuccess_append firstSuccess_asTime
      tryTimePatterns_append asInt_def asBool_def asFloat_def split: option.splits)

text \<open>What \<open>ParseInt\<close> returns is an \<open>int64\<close>.\<close>

lemma ParseInt_range:
  assumes "ParseInt s = Some i"
  shows "- (2 ^ 63) \<le> i \<and> i < 2 ^ 63"
  using assms
  by (auto simp: ParseInt_def Let_def split: list.splits option.splits if_splits)

lemma example_no_time [simp]: "tryTimePatterns exampleLib ls ts = None"
  by (induction ls) (simp_all add: exampleLib_def)

lemma example_float:
  "ParseFloat exampleLib s = (if s = ''NaN'' then Some 0x7FF8000000000001 else None)"
  by (simp add: exampleLib_def)



subsection \<open>C6: the order of the attempts\<close>

text \<open>
  C6. \<open>parseString\<close> is a total function of the text and the configuration (and of the
  library's answers), its result is one of the five kinds of value, and it is the result
  of the documented order of attempts with the first success winning: the configured time
  formats in order, the fixed fallback timestamp formats, the signed 64-bit integer, the
  boolean, the 64-bit float, else the text unchanged. That is, the source's
  \<open>parseString\<close> computes what the specification's \<open>infer\<close> does on the configured
  time patterns.
\<close>

theorem parseString_refines_infer:
  "parseString L ts config = infer L ts (GetStringSlice config configParseTimePatterns)"
  by (simp only: parseString_by_layout_list infer_by_layout_list)

subsection \<open>C9: NaN becomes the float zero\<close>

text \<open>
  C9. Whenever no time format parses the text, the integer and boolean parses fail and
  the float parse yields a NaN, \<open>parseString\<close> returns the float zero (bit pattern 0),
  which is not a NaN. The text \<open>NaN\<close> is such an input.
\<close>

theorem parseString_NaN_zero:
  assumes "tryTimePatterns L (GetStringSlice config configParseTimePatterns @ fallbackLayouts) ts = None"
    and "ParseInt ts = None" and "ParseBool ts = None"
    and "ParseFloat L ts = Some pf" and "IsNaN pf"
  shows "parseString L ts config = VFloat 0 \<and> \<not> IsNaN 0"
  using assms by (simp add: parseString_by_layout_list afterTime_def IsNaN_def)

theorem parseString_NaN_zero_witness:
  "ParseFloat exampleLib ''NaN'' = Some 0x7FF8000000000001 \<and> IsNaN 0x7FF8000000000001
   \<and> parseString exampleLib ''NaN'' emptyViper = VFloat 0 \<and> \<not> IsNaN 0"
proof -
  have f: "ParseFloat exampleLib ''NaN'' = Some 0x7FF8000000000001"
    by (simp add: example_float)
  have n: "IsNaN 0x7FF8000000000001"
    by (simp add: IsNaN_def)
  have i: "ParseInt ''NaN'' = None"
    by (simp add: ParseInt_def ParseUint_def digitVal_def)
  have b: "ParseBool ''NaN'' = None"
    by (simp add: ParseBool_def)
  from parseString_NaN_zero [OF example_no_time i b f n, of emptyViper] f n show ?thesis
    by simp
qed

subsection \<open>C10: the boolean step\<close>




section \<open>Properties of the line parser\<close>

lemma sliceContains_set: "sliceContains list a \<longleftrightarrow> a \<in> set list"
  by (induction list) auto

lemma clean_empty: "clean worker fmempty"
  by (simp add: clean_def)

lemma clean_upd: "clean worker v \<Longrightarrow> \<not> shouldIgnore worker k \<Longrightarrow> clean worker (fmupd k x v)"
  by (auto simp: clean_def)

lemma ParseURILoop_clean: "clean worker v \<Longrightarrow> clean worker (ParseURILoop L worker q v)"
proof (induction q arbitrary: v)
  case Nil
  then show ?case by simp
next
  case (Cons p q)
  obtain k kvs where p: "p = (k, kvs)"
    by (cases p)
  show ?case
    using Cons.prems unfolding p
    by (auto simp: Let_def intro!: Cons.IH clean_upd)
qed

lemma ParseURI_clean: "clean worker v \<Longrightarrow> clean worker (ParseURI L worker uri v)"
  by (auto simp: ParseURI_def ParseURILoop_clean split: option.split)

lemma ParseEventsLoop_step:
  "i < length names \<Longrightarrow>
   ParseEventsLoop L worker names i (submatch # rest) v =
     ParseEventsLoop L worker names (Suc i) rest (groupStep L worker (names ! i) submatch v)"
  by (simp add: groupStep_def Let_def)

lemma ParseEventsLoop_panic:
  "length names \<le> i \<Longrightarrow>
   ParseEventsLoop L worker names i (submatch # rest) v = Inl (Panic ''index out of range'')"
  by simp

declare ParseEventsLoop.simps(2) [simp del]

lemma ParseEventsLoop_Inr_step:
  assumes "ParseEventsLoop L worker names i (submatch # rest) v = Inr v'"
  shows "i < length names"
    and "ParseEventsLoop L worker names (Suc i) rest (groupStep L worker (names ! i) submatch v) = Inr v'"
proof -
  show r: "i < length names"
  proof (rule ccontr)
    assume "\<not> i < length names"
    then have "length names \<le> i" by simp
    then have "ParseEventsLoop L worker names i (submatch # rest) v
        = Inl (Panic ''index out of range'')"
      by (rule ParseEventsLoop_panic)
    with assms show False by simp
  qed
  have "ParseEventsLoop L worker names i (submatch # rest) v =
      ParseEventsLoop L worker names (Suc i) rest (groupStep L worker (names ! i) submatch v)"
    using r by (rule ParseEventsLoop_step)
  with assms
  show "ParseEventsLoop L worker names (Suc i) rest (groupStep L worker (names ! i) submatch v) = Inr v'"
    by simp
qed

lemma groupStep_clean: "clean worker v \<Longrightarrow> clean worker (groupStep L worker name submatch v)"
  by (simp add: groupStep_def Let_def clean_upd ParseURI_clean)

lemma ParseEventsLoop_clean:
  "clean worker v \<Longrightarrow> ParseEventsLoop L worker names i match v = Inr v' \<Longrightarrow> clean worker v'"
proof (induction match arbitrary: i v)
  case Nil
  then show ?case by simp
next
  case (Cons submatch rest)
  from Cons.prems(1) have "clean worker (groupStep L worker (names ! i) submatch v)"
    by (rule groupStep_clean)
  then show ?case
    using ParseEventsLoop_Inr_step(2) [OF Cons.prems(2)] by (rule Cons.IH)
qed

lemma ParseEvents_clean: "ParseEvents L worker line = Inr v \<Longrightarrow> clean worker v"
  by (auto simp: ParseEvents_def split: option.splits
      intro: ParseEventsLoop_clean [OF clean_empty])

lemma ParseURILoop_keeps:
  "fmlookup v k = Some x \<Longrightarrow> fmlookup (ParseURILoop L worker q v) k = Some x"
proof (induction q arbitrary: v)
  case Nil
  then show ?case by simp
next
  case (Cons p q)
  obtain k' kvs where p: "p = (k', kvs)"
    by (cases p)
  have "fmlookup v (newKeyName k' v) = None"
    by (rule newKeyName_fresh)
  with Cons.prems have "newKeyName k' v \<noteq> k"
    by auto
  with Cons.prems show ?case
    unfolding p by (auto simp: Let_def intro!: Cons.IH)
qed

lemma ParseURI_keeps:
  "fmlookup v k = Some x \<Longrightarrow> fmlookup (ParseURI L worker uri v) k = Some x"
  by (simp add: ParseURI_def ParseURILoop_keeps split: option.split)

lemma groupStep_keeps:
  "name \<noteq> k \<Longrightarrow> fmlookup v k = Some x \<Longrightarrow> fmlookup (groupStep L worker name submatch v) k = Some x"
  by (auto simp: groupStep_def Let_def intro!: ParseURI_keeps)

lemma groupStep_stores:
  "\<not> shouldIgnore worker name \<Longrightarrow>
   fmlookup (groupStep L worker name submatch v) name = Some (parseString L submatch (Config worker))"
  by (auto simp: groupStep_def Let_def intro!: ParseURI_keeps)

lemma ParseEventsLoop_keeps:
  "ParseEventsLoop L worker names i rest v = Inr v' \<Longrightarrow> fmlookup v k = Some x \<Longrightarrow>
   (\<forall>j. j < length rest \<longrightarrow> names ! (i + j) \<noteq> k) \<Longrightarrow> fmlookup v' k = Some x"
proof (induction rest arbitrary: i v)
  case Nil
  then show ?case by simp
next
  case (Cons submatch rest)
  note step = ParseEventsLoop_Inr_step(2) [OF Cons.prems(1)]
  from Cons.prems(3) have "names ! (i + 0) \<noteq> k"
    by (metis length_greater_0_conv list.distinct(1))
  then have "names ! i \<noteq> k"
    by simp
  then have kept: "fmlookup (groupStep L worker (names ! i) submatch v) k = Some x"
    using Cons.prems(2) by (rule groupStep_keeps)
  have later: "\<forall>j. j < length rest \<longrightarrow> names ! (Suc i + j) \<noteq> k"
  proof (intro allI impI)
    fix j assume "j < length rest"
    then have "Suc j < length (submatch # rest)" by simp
    with Cons.prems(3) have "names ! (i + Suc j) \<noteq> k" by blast
    then show "names ! (Suc i + j) \<noteq> k" by simp
  qed
  from step kept later show ?case
    by (rule Cons.IH)
qed

lemma ParseEventsLoop_stores:
  "ParseEventsLoop L worker names i match v = Inr v' \<Longrightarrow> n < length match \<Longrightarrow>
   \<not> shouldIgnore worker (names ! (i + n)) \<Longrightarrow>
   (\<forall>j. n < j \<and> j < length match \<longrightarrow> names ! (i + j) \<noteq> names ! (i + n)) \<Longrightarrow>
   fmlookup v' (names ! (i + n)) = Some (parseString L (match ! n) (Config worker))"
proof (induction match arbitrary: i n v)
  case Nil
  then show ?case by simp
next
  case (Cons submatch rest)
  note step = ParseEventsLoop_Inr_step(2) [OF Cons.prems(1)]
  show ?case
  proof (cases n)
    case 0
    from Cons.prems(3) have stored:
      "fmlookup (groupStep L worker (names ! i) submatch v) (names ! i)
         = Some (parseString L submatch (Config worker))"
      unfolding 0 by (simp add: groupStep_stores)
    have later: "\<forall>j. j < length rest \<longrightarrow> names ! (Suc i + j) \<noteq> names ! i"
    proof (intro allI impI)
      fix j assume "j < length rest"
      then have "n < Suc j \<and> Suc j < length (submatch # rest)"
        by (simp add: 0)
      with Cons.prems(4) have "names ! (i + Suc j) \<noteq> names ! (i + n)"
        by blast
      then show "names ! (Suc i + j) \<noteq> names ! i"
        by (simp add: 0)
    qed
    from ParseEventsLoop_keeps [OF step stored later] show ?thesis
      by (simp add: 0)
  next
    case (Suc m)
    from Cons.prems(2) have m: "m < length rest"
      by (simp add: Suc)
    from Cons.prems(3) have ign: "\<not> shouldIgnore worker (names ! (Suc i + m))"
      by (simp add: Suc)
    have later: "\<forall>j. m < j \<and> j < length rest \<longrightarrow> names ! (Suc i + j) \<noteq> names ! (Suc i + m)"
    proof (intro allI impI)
      fix j assume "m < j \<and> j < length rest"
      then have "n < Suc j \<and> Suc j < length (submatch # rest)"
        by (simp add: Suc)
      with Cons.prems(4) have "names ! (i + Suc j) \<noteq> names ! (i + n)"
        by blast
      then show "names ! (Suc i + j) \<noteq> names ! (Suc i + m)"
        by (simp add: Suc)
    qed
    from Cons.IH [OF step m ign later] show ?thesis
      by (simp add: Suc)
  qed
qed

lemma ParseURILoop_step:
  "ParseURILoop L worker ((k, kvs) # q) v = ParseURILoop L worker q (paramStep L worker k kvs v)"
  by (simp add: paramStep_def Let_def)

lemma paramStep_other:
  "key \<noteq> newKeyName k v \<Longrightarrow> fmlookup (paramStep L worker k kvs v) key = fmlookup v key"
  by (simp add: paramStep_def)

lemma ParseURILoop_new_key:
  "fmlookup (ParseURILoop L worker q v) key = Some y \<Longrightarrow> fmlookup v key = None \<Longrightarrow>
   \<exists>k kvs n. (k, kvs) \<in> set q \<and> key = replicate n CHR ''_'' @ k"
proof (induction q arbitrary: v)
  case Nil
  then show ?case by simp
next
  case (Cons p q)
  obtain k' kvs' where p: "p = (k', kvs')"
    by (cases p)
  obtain n' where n': "newKeyName k' v = replicate n' CHR ''_'' @ k'"
    using newKeyName_minimal [of k' v] by blast
  show ?case
  proof (cases "key = newKeyName k' v")
    case True
    with n' p show ?thesis
      by auto
  next
    case False
    from Cons.prems(1) have "fmlookup (ParseURILoop L worker q (paramStep L worker k' kvs' v)) key = Some y"
      unfolding p by (simp only: ParseURILoop_step)
    moreover from False Cons.prems(2) have "fmlookup (paramStep L worker k' kvs' v) key = None"
      by (simp add: paramStep_other)
    ultimately obtain k kvs n where "(k, kvs) \<in> set q" "key = replicate n CHR ''_'' @ k"
      using Cons.IH by blast
    then show ?thesis
      by auto
  qed
qed

lemma ParseURI_new_key:
  assumes "fmlookup (ParseURI L worker uri e) key = Some y"
    and "fmlookup e key = None"
  shows "\<exists>q k kvs n. urlQuery L uri = Some q \<and> (k, kvs) \<in> set q
           \<and> key = replicate n CHR ''_'' @ k"
proof (cases "urlQuery L uri")
  case None
  with assms show ?thesis
    by (simp add: ParseURI_def split: if_splits)
next
  case (Some q)
  with assms have "fmlookup (ParseURILoop L worker q e) key = Some y"
    by (simp add: ParseURI_def split: if_splits)
  from ParseURILoop_new_key [OF this assms(2)] Some show ?thesis
    by blast
qed

lemma ParseURILoop_append:
  "ParseURILoop L worker (pre @ post) e = ParseURILoop L worker post (ParseURILoop L worker pre e)"
proof (induction pre arbitrary: e)
  case Nil
  show ?case by simp
next
  case (Cons p pre)
  obtain k kvs where p: "p = (k, kvs)"
    by (cases p)
  show ?case
    unfolding p by (simp only: append_Cons ParseURILoop_step Cons.IH)
qed

lemma paramStep_stores:
  "\<not> shouldIgnore worker (newKeyName k e) \<Longrightarrow> kvs \<noteq> [] \<Longrightarrow>
   fmlookup (paramStep L worker k kvs e) (newKeyName k e) = Some (parseString L (kvs ! 0) (Config worker))"
  by (simp add: paramStep_def)

lemma paramStep_skips:
  "shouldIgnore worker (newKeyName k e) \<or> kvs = [] \<Longrightarrow> paramStep L worker k kvs e = e"
  by (auto simp: paramStep_def)

lemma ParseURILoop_stores:
  assumes "\<not> shouldIgnore worker (newKeyName k (ParseURILoop L worker pre e))"
    and "kvs \<noteq> []"
  shows "fmlookup (ParseURILoop L worker (pre @ (k, kvs) # post) e)
           (newKeyName k (ParseURILoop L worker pre e))
         = Some (parseString L (kvs ! 0) (Config worker))"
proof -
  let ?e = "ParseURILoop L worker pre e"
  have "fmlookup (paramStep L worker k kvs ?e) (newKeyName k ?e)
      = Some (parseString L (kvs ! 0) (Config worker))"
    using assms by (rule paramStep_stores)
  then have "fmlookup (ParseURILoop L worker post (paramStep L worker k kvs ?e)) (newKeyName k ?e)
      = Some (parseString L (kvs ! 0) (Config worker))"
    by (rule ParseURILoop_keeps)
  then show ?thesis
    by (simp only: ParseURILoop_append ParseURILoop_step)
qed

lemma ParseURILoop_added:
  "fmlookup (ParseURILoop L worker q e) key = Some y \<Longrightarrow> fmlookup e key = None \<Longrightarrow>
   \<exists>pre k kvs post. q = pre @ (k, kvs) # post
      \<and> key = newKeyName k (ParseURILoop L worker pre e)
      \<and> \<not> shouldIgnore worker key \<and> kvs \<noteq> []
      \<and> y = parseString L (kvs ! 0) (Config worker)"
proof (induction q arbitrary: e)
  case Nil
  then show ?case by simp
next
  case (Cons p q)
  obtain k' kvs' where p: "p = (k', kvs')"
    by (cases p)
  let ?e' = "paramStep L worker k' kvs' e"
  from Cons.prems(1) have run: "fmlookup (ParseURILoop L worker q ?e') key = Some y"
    unfolding p by (simp only: ParseURILoop_step)
  show ?case
  proof (cases "fmlookup ?e' key")
    case (Some z)
    then have "fmlookup (ParseURILoop L worker q ?e') key = Some z"
      by (rule ParseURILoop_keeps)
    with run have zy: "z = y"
      by simp
    from Some Cons.prems(2) have stored:
      "key = newKeyName k' e \<and> \<not> shouldIgnore worker (newKeyName k' e) \<and> kvs' \<noteq> []
       \<and> z = parseString L (kvs' ! 0) (Config worker)"
      by (auto simp: paramStep_def split: if_splits)
    have "p # q = [] @ (k', kvs') # q
        \<and> key = newKeyName k' (ParseURILoop L worker [] e)
        \<and> \<not> shouldIgnore worker key \<and> kvs' \<noteq> []
        \<and> y = parseString L (kvs' ! 0) (Config worker)"
      using stored zy by (simp add: p)
    then show ?thesis
      by blast
  next
    case None
    from Cons.IH [OF run None] obtain pre k kvs post where
      q: "q = pre @ (k, kvs) # post" and
      key: "key = newKeyName k (ParseURILoop L worker pre ?e')" and
      rest: "\<not> shouldIgnore worker key \<and> kvs \<noteq> [] \<and> y = parseString L (kvs ! 0) (Config worker)"
      by blast
    from key have "key = newKeyName k (ParseURILoop L worker (p # pre) e)"
      unfolding p by (simp only: ParseURILoop_step)
    with q rest have "p # q = (p # pre) @ (k, kvs) # post
        \<and> key = newKeyName k (ParseURILoop L worker (p # pre) e)
        \<and> \<not> shouldIgnore worker key \<and> kvs \<noteq> []
        \<and> y = parseString L (kvs ! 0) (Config worker)"
      by simp
    then show ?thesis
      by blast
  qed
qed

lemma ParseEventsLoop_append:
  "ParseEventsLoop L worker names i (xs @ ys) v =
     (case ParseEventsLoop L worker names i xs v of
        Inl f \<Rightarrow> Inl f
      | Inr v' \<Rightarrow> ParseEventsLoop L worker names (i + length xs) ys v')"
proof (induction xs arbitrary: i v)
  case Nil
  show ?case by simp
next
  case (Cons x xs)
  show ?case
  proof (cases "i < length names")
    case True
    then show ?thesis
      by (simp add: ParseEventsLoop_step Cons.IH cong: sum.case_cong)
  next
    case False
    then have "length names \<le> i" by simp
    then show ?thesis
      by (simp add: ParseEventsLoop_panic)
  qed
qed

lemma ParseEventsLoop_uri_param:
  assumes run: "ParseEventsLoop L worker names 0 match fmempty = Inr v"
    and m: "m < length match"
    and uri: "names ! m = ''uri''"
  shows "\<exists>e0. ParseEventsLoop L worker names 0 (take m match) fmempty = Inr e0
     \<and> (\<forall>pre k kvs post.
          (let e = (if \<not> shouldIgnore worker ''uri''
                    then fmupd ''uri'' (parseString L (match ! m) (Config worker)) e0 else e0);
               key = newKeyName k (ParseURILoop L worker pre e)
           in match ! m \<noteq> [] \<and> urlQuery L (match ! m) = Some (pre @ (k, kvs) # post)
              \<and> kvs \<noteq> [] \<and> \<not> shouldIgnore worker key
              \<and> (\<forall>j. m < j \<and> j < length match \<longrightarrow> names ! j \<noteq> key)
              \<longrightarrow> fmlookup v key = Some (parseString L (kvs ! 0) (Config worker))))"
proof -
  from m have split: "match = take m match @ (match ! m) # drop (Suc m) match"
    by (simp add: id_take_nth_drop)
  have len: "length (take m match) = m"
    using m by simp
  from run have run': "ParseEventsLoop L worker names 0 (take m match @ (match ! m) # drop (Suc m) match) fmempty = Inr v"
    using split by simp
  then obtain e0 where e0: "ParseEventsLoop L worker names 0 (take m match) fmempty = Inr e0"
    and tail: "ParseEventsLoop L worker names m ((match ! m) # drop (Suc m) match) e0 = Inr v"
    using m by (auto simp: ParseEventsLoop_append min_def split: sum.splits)
  from ParseEventsLoop_Inr_step(2) [OF tail]
  have rest: "ParseEventsLoop L worker names (Suc m) (drop (Suc m) match)
      (groupStep L worker ''uri'' (match ! m) e0) = Inr v"
    by (simp add: uri)
  have "fmlookup v (newKeyName k (ParseURILoop L worker pre e))
      = Some (parseString L (kvs ! 0) (Config worker))"
    if e: "e = (if \<not> shouldIgnore worker ''uri''
                then fmupd ''uri'' (parseString L (match ! m) (Config worker)) e0 else e0)"
      and ne: "match ! m \<noteq> []"
      and q: "urlQuery L (match ! m) = Some (pre @ (k, kvs) # post)"
      and kvs: "kvs \<noteq> []"
      and ign: "\<not> shouldIgnore worker (newKeyName k (ParseURILoop L worker pre e))"
      and later: "\<forall>j. m < j \<and> j < length match \<longrightarrow> names ! j \<noteq> newKeyName k (ParseURILoop L worker pre e)"
    for e pre k kvs post
  proof -
    have g: "groupStep L worker ''uri'' (match ! m) e0 = ParseURILoop L worker (pre @ (k, kvs) # post) e"
      using ne q by (simp add: groupStep_def ParseURI_def e Let_def)
    have stored: "fmlookup (groupStep L worker ''uri'' (match ! m) e0)
        (newKeyName k (ParseURILoop L worker pre e)) = Some (parseString L (kvs ! 0) (Config worker))"
      unfolding g using ign kvs by (rule ParseURILoop_stores)
    have after: "\<forall>j. j < length (drop (Suc m) match)
        \<longrightarrow> names ! (Suc m + j) \<noteq> newKeyName k (ParseURILoop L worker pre e)"
    proof (intro allI impI)
      fix j assume "j < length (drop (Suc m) match)"
      then have "m < Suc m + j \<and> Suc m + j < length match"
        by auto
      with later show "names ! (Suc m + j) \<noteq> newKeyName k (ParseURILoop L worker pre e)"
        by blast
    qed
    from rest stored after show ?thesis
      by (rule ParseEventsLoop_keeps)
  qed
  then have "\<forall>pre k kvs post.
          (let e = (if \<not> shouldIgnore worker ''uri''
                    then fmupd ''uri'' (parseString L (match ! m) (Config worker)) e0 else e0);
               key = newKeyName k (ParseURILoop L worker pre e)
           in match ! m \<noteq> [] \<and> urlQuery L (match ! m) = Some (pre @ (k, kvs) # post)
              \<and> kvs \<noteq> [] \<and> \<not> shouldIgnore worker key
              \<and> (\<forall>j. m < j \<and> j < length match \<longrightarrow> names ! j \<noteq> key)
              \<longrightarrow> fmlookup v key = Some (parseString L (kvs ! 0) (Config worker)))"
    unfolding Let_def by blast
  with e0 show ?thesis
    by blast
qed

lemma ParseURI_added:
  assumes "fmlookup (ParseURI L worker uri e) key = Some y"
    and "fmlookup e key = None"
  shows "\<exists>pre k kvs post. urlQuery L uri = Some (pre @ (k, kvs) # post)
      \<and> key = newKeyName k (ParseURILoop L worker pre e)
      \<and> \<not> shouldIgnore worker key \<and> kvs \<noteq> []
      \<and> y = parseString L (kvs ! 0) (Config worker)"
proof (cases "urlQuery L uri")
  case None
  with assms show ?thesis
    by (simp add: ParseURI_def split: if_splits)
next
  case (Some q)
  with assms have "fmlookup (ParseURILoop L worker q e) key = Some y"
    by (simp add: ParseURI_def split: if_splits)
  from ParseURILoop_added [OF this assms(2)] Some show ?thesis
    by blast
qed

lemma example_parseString: "parseString exampleLib ts cfg = afterTime exampleLib ts"
  by (simp add: parseString_by_layout_list)

lemma example_values:
  "afterTime exampleLib ''10.0.0.1'' = VText ''10.0.0.1''"
  "afterTime exampleLib ''GET'' = VText ''GET''"
  "afterTime exampleLib ''/search?q=5&lang=en'' = VText ''/search?q=5&lang=en''"
  "afterTime exampleLib ''200'' = VInt 200"
  "afterTime exampleLib ''5'' = VInt 5"
  "afterTime exampleLib ''en'' = VText ''en''"
  "afterTime exampleLib ''/s?q=5'' = VText ''/s?q=5''"
  "afterTime exampleLib ''7'' = VInt 7"
  "afterTime exampleLib accessLine = VText accessLine"
  "afterTime exampleLib ''/s?q=5 7'' = VText ''/s?q=5 7''"
  by (simp_all add: afterTime_def ParseInt_def ParseUint_def digitVal_def ParseBool_def
      example_float accessLine_def)

lemma accessWorker_simps:
  "regex accessWorker = Some accessRegexp"
  "Config accessWorker = patternViper accessPattern [''lang'', ''method'']"
  by (simp_all add: accessWorker_def Init_def idleWorker_def patternViper_def exampleLib_def
      configParsePattern_def accessPattern_def Let_def)

lemma uriFirstWorker_simps:
  "regex uriFirstWorker = Some uriFirstRegexp"
  "Config uriFirstWorker = patternViper uriFirstPattern []"
  by (simp_all add: uriFirstWorker_def Init_def idleWorker_def patternViper_def exampleLib_def
      configParsePattern_def accessPattern_def uriFirstPattern_def Let_def)

lemma example_urlQuery:
  "urlQuery exampleLib ''/search?q=5&lang=en'' = Some [(''q'', [''5'']), (''lang'', [''en''])]"
  "urlQuery exampleLib ''/s?q=5'' = Some [(''q'', [''5''])]"
  by (simp_all add: exampleLib_def)

lemma accessWorker_ignore:
  "shouldIgnore accessWorker k \<longleftrightarrow> k = [] \<or> k = ''lang'' \<or> k = ''method''"
  by (auto simp: shouldIgnore_def accessWorker_simps patternViper_def configParseKeysToIgnore_def)

lemma uriFirstWorker_ignore: "shouldIgnore uriFirstWorker k \<longleftrightarrow> k = []"
  by (auto simp: shouldIgnore_def uriFirstWorker_simps patternViper_def configParseKeysToIgnore_def)

lemma access_event: "ParseEvents exampleLib accessWorker accessLine = Inr accessEvent"
  by (simp add: ParseEvents_def accessWorker_simps(1) accessRegexp_def ParseEventsLoop_step
      groupStep_def accessWorker_ignore ParseURI_def example_urlQuery example_parseString
      example_values accessEvent_def)

lemma uriFirst_event: "ParseEvents exampleLib uriFirstWorker ''/s?q=5 7'' = Inr uriFirstEvent"
  by (simp add: ParseEvents_def uriFirstWorker_simps(1) uriFirstRegexp_def ParseEventsLoop_step
      groupStep_def uriFirstWorker_ignore ParseURI_def example_urlQuery example_parseString
      example_values uriFirstEvent_def)

subsection \<open>C7: ignored keys\<close>

text \<open>
  C7. For every line that parses, no name listed in \<open>parse.keys_to_ignore\<close> is a key of
  the returned event, whichever way the field came about: a capture group or a query
  parameter of the URI.
\<close>

theorem ParseEvents_never_ignored_key:
  assumes "ParseEvents L worker line = Inr v"
    and "k \<in> set (GetStringSlice (Config worker) configParseKeysToIgnore)"
  shows "fmlookup v k = None"
proof -
  from assms(2) have "shouldIgnore worker k"
    by (simp add: shouldIgnore_def sliceContains_set)
  moreover from assms(1) have "clean worker v"
    by (rule ParseEvents_clean)
  ultimately show ?thesis
    by (simp add: clean_def)
qed

theorem ParseEvents_never_ignored_key_witness:
  "ParseEvents exampleLib accessWorker accessLine = Inr accessEvent
   \<and> ''lang'' \<in> set (GetStringSlice (Config accessWorker) configParseKeysToIgnore)
   \<and> fmlookup accessEvent ''lang'' = None
   \<and> ''method'' \<in> set (GetStringSlice (Config accessWorker) configParseKeysToIgnore)
   \<and> fmlookup accessEvent ''method'' = None"
proof -
  have l: "''lang'' \<in> set (GetStringSlice (Config accessWorker) configParseKeysToIgnore)"
    and m: "''method'' \<in> set (GetStringSlice (Config accessWorker) configParseKeysToIgnore)"
    by (simp_all add: accessWorker_simps patternViper_def configParseKeysToIgnore_def)
  from access_event l m
    ParseEvents_never_ignored_key [OF access_event l]
    ParseEvents_never_ignored_key [OF access_event m]
  show ?thesis
    by simp
qed

subsection \<open>C4: the names of the stored fields\<close>

text \<open>
  C4, as stated, fails. With the groups \<open>uri\<close> and \<open>q\<close> in this order and the line
  \<open>/s?q=5 7\<close>, the loop of \<open>ParseEvents\<close> has stored \<open>uri\<close> and the expanded
  \<open>q = 5\<close> when it reaches the group \<open>q\<close>. Against that event the key namer names the
  group \<open>_q\<close>; \<open>ParseEvents\<close> stores it under \<open>q\<close> and overwrites the expanded
  field: the returned event has no key \<open>_q\<close>, and \<open>q\<close> is 7.
\<close>

theorem ParseEvents_overwrites_counterexample:
  "regex uriFirstWorker = Some uriFirstRegexp
   \<and> FindStringSubmatch uriFirstRegexp ''/s?q=5 7'' = Some [''/s?q=5 7'', ''/s?q=5'', ''7'']
   \<and> ParseEventsLoop exampleLib uriFirstWorker (SubexpNames uriFirstRegexp) 0
        (take 2 [''/s?q=5 7'', ''/s?q=5'', ''7'']) fmempty = Inr uriFirstBefore
   \<and> fmlookup uriFirstBefore ''q'' = Some (VInt 5)
   \<and> SubexpNames uriFirstRegexp ! 2 = ''q''
   \<and> newKeyName ''q'' uriFirstBefore = ''_q''
   \<and> ParseEvents exampleLib uriFirstWorker ''/s?q=5 7'' = Inr uriFirstEvent
   \<and> fmlookup uriFirstEvent ''_q'' = None
   \<and> fmlookup uriFirstEvent ''q'' = Some (VInt 7)"
proof -
  have "ParseEventsLoop exampleLib uriFirstWorker (SubexpNames uriFirstRegexp) 0
        (take 2 [''/s?q=5 7'', ''/s?q=5'', ''7'']) fmempty = Inr uriFirstBefore"
    by (simp add: uriFirstRegexp_def ParseEventsLoop_step groupStep_def uriFirstWorker_ignore
        ParseURI_def example_urlQuery example_parseString example_values uriFirstBefore_def)
  moreover have "newKeyName ''q'' uriFirstBefore = ''_q''"
    and "fmlookup uriFirstBefore ''q'' = Some (VInt 5)"
    by (simp_all add: uriFirstBefore_def)
  moreover have "fmlookup uriFirstEvent ''_q'' = None"
    and "fmlookup uriFirstEvent ''q'' = Some (VInt 7)"
    by (simp_all add: uriFirstEvent_def)
  moreover have "FindStringSubmatch uriFirstRegexp ''/s?q=5 7'' = Some [''/s?q=5 7'', ''/s?q=5'', ''7'']"
    and "SubexpNames uriFirstRegexp ! 2 = ''q''"
    by (simp_all add: uriFirstRegexp_def)
  ultimately show ?thesis
    using uriFirst_event uriFirstWorker_simps(1) by simp
qed

text \<open>
  C4, amended. For every matching line and every non-ignored capture group,
  \<open>ParseEvents\<close> stores the inferred value under the group's own name, replacing a field
  already stored under that name: the returned event holds, under the name of a non-ignored
  group that no later group shares, the inferred value of that group's text. Only the URI
  expansion names its fields with the key namer:
  \<^item> it never changes a field that is already in the event, and every key it adds is the
    name of a query parameter behind some number of underscores;
  \<^item> a query parameter that has a value is stored, with the inferred value of its first
    value, under the name that the key namer computes for it against the event as it is
    when the loop reaches the parameter (the given event after the parameters before it),
    unless that name is ignored;
  \<^item> every field that the expansion adds is such a parameter, under that name, with that
    value;
  \<^item> in \<open>ParseEvents\<close>, at a group named \<open>uri\<close>, the expansion starts from the event of
    the groups before it with the group's own field stored, and a parameter stored under its
    key-namer name is in the returned event with its value, unless a later group has that
    name.
\<close>

theorem ParseEvents_top_level_own_name:
  assumes "regex worker = Some re"
    and "FindStringSubmatch re line = Some match"
    and "ParseEvents L worker line = Inr v"
    and "n < length match"
    and "\<not> shouldIgnore worker (SubexpNames re ! n)"
    and "\<forall>j. n < j \<and> j < length match \<longrightarrow> SubexpNames re ! j \<noteq> SubexpNames re ! n"
  shows "fmlookup v (SubexpNames re ! n) = Some (parseString L (match ! n) (Config worker))
     \<and> (\<forall>uri e k x. fmlookup e k = Some x \<longrightarrow> fmlookup (ParseURI L worker uri e) k = Some x)
     \<and> (\<forall>uri e key y.
           fmlookup (ParseURI L worker uri e) key = Some y \<and> fmlookup e key = None \<longrightarrow>
           (\<exists>q k kvs i. urlQuery L uri = Some q \<and> (k, kvs) \<in> set q
              \<and> key = replicate i CHR ''_'' @ k))
     \<and> (\<forall>uri e pre k kvs post.
           uri \<noteq> [] \<and> urlQuery L uri = Some (pre @ (k, kvs) # post) \<and> kvs \<noteq> []
           \<and> \<not> shouldIgnore worker (newKeyName k (ParseURILoop L worker pre e)) \<longrightarrow>
           fmlookup (ParseURI L worker uri e) (newKeyName k (ParseURILoop L worker pre e))
             = Some (parseString L (kvs ! 0) (Config worker)))
     \<and> (\<forall>uri e key y.
           fmlookup (ParseURI L worker uri e) key = Some y \<and> fmlookup e key = None \<longrightarrow>
           (\<exists>pre k kvs post. urlQuery L uri = Some (pre @ (k, kvs) # post)
              \<and> key = newKeyName k (ParseURILoop L worker pre e)
              \<and> \<not> shouldIgnore worker key \<and> kvs \<noteq> []
              \<and> y = parseString L (kvs ! 0) (Config worker)))
     \<and> (\<forall>m. m < length match \<and> SubexpNames re ! m = ''uri'' \<longrightarrow>
           (\<exists>e0. ParseEventsLoop L worker (SubexpNames re) 0 (take m match) fmempty = Inr e0
              \<and> (\<forall>pre k kvs post.
                   (let e = (if \<not> shouldIgnore worker ''uri''
                             then fmupd ''uri'' (parseString L (match ! m) (Config worker)) e0
                             else e0);
                        key = newKeyName k (ParseURILoop L worker pre e)
                    in match ! m \<noteq> [] \<and> urlQuery L (match ! m) = Some (pre @ (k, kvs) # post)
                       \<and> kvs \<noteq> [] \<and> \<not> shouldIgnore worker key
                       \<and> (\<forall>j. m < j \<and> j < length match \<longrightarrow> SubexpNames re ! j \<noteq> key)
                       \<longrightarrow> fmlookup v key = Some (parseString L (kvs ! 0) (Config worker))))))"
proof (intro conjI)
  from assms(1-3) have run: "ParseEventsLoop L worker (SubexpNames re) 0 match fmempty = Inr v"
    by (simp add: ParseEvents_def)
  from ParseEventsLoop_stores [OF run assms(4), simplified, OF assms(5) assms(6)]
  show "fmlookup v (SubexpNames re ! n) = Some (parseString L (match ! n) (Config worker))" .
  show "\<forall>m. m < length match \<and> SubexpNames re ! m = ''uri'' \<longrightarrow>
      (\<exists>e0. ParseEventsLoop L worker (SubexpNames re) 0 (take m match) fmempty = Inr e0
         \<and> (\<forall>pre k kvs post.
              (let e = (if \<not> shouldIgnore worker ''uri''
                        then fmupd ''uri'' (parseString L (match ! m) (Config worker)) e0
                        else e0);
                   key = newKeyName k (ParseURILoop L worker pre e)
               in match ! m \<noteq> [] \<and> urlQuery L (match ! m) = Some (pre @ (k, kvs) # post)
                  \<and> kvs \<noteq> [] \<and> \<not> shouldIgnore worker key
                  \<and> (\<forall>j. m < j \<and> j < length match \<longrightarrow> SubexpNames re ! j \<noteq> key)
                  \<longrightarrow> fmlookup v key = Some (parseString L (kvs ! 0) (Config worker)))))"
    using ParseEventsLoop_uri_param [OF run] by blast
next
  show "\<forall>uri e k x. fmlookup e k = Some x \<longrightarrow> fmlookup (ParseURI L worker uri e) k = Some x"
    by (simp add: ParseURI_keeps)
next
  show "\<forall>uri e key y.
      fmlookup (ParseURI L worker uri e) key = Some y \<and> fmlookup e key = None \<longrightarrow>
      (\<exists>q k kvs i. urlQuery L uri = Some q \<and> (k, kvs) \<in> set q
         \<and> key = replicate i CHR ''_'' @ k)"
    using ParseURI_new_key by blast
next
  show "\<forall>uri e pre k kvs post.
      uri \<noteq> [] \<and> urlQuery L uri = Some (pre @ (k, kvs) # post) \<and> kvs \<noteq> []
      \<and> \<not> shouldIgnore worker (newKeyName k (ParseURILoop L worker pre e)) \<longrightarrow>
      fmlookup (ParseURI L worker uri e) (newKeyName k (ParseURILoop L worker pre e))
        = Some (parseString L (kvs ! 0) (Config worker))"
    by (simp add: ParseURI_def ParseURILoop_stores)
next
  show "\<forall>uri e key y.
      fmlookup (ParseURI L worker uri e) key = Some y \<and> fmlookup e key = None \<longrightarrow>
      (\<exists>pre k kvs post. urlQuery L uri = Some (pre @ (k, kvs) # post)
         \<and> key = newKeyName k (ParseURILoop L worker pre e)
         \<and> \<not> shouldIgnore worker key \<and> kvs \<noteq> []
         \<and> y = parseString L (kvs ! 0) (Config worker))"
    using ParseURI_added by blast
qed

theorem ParseEvents_top_level_own_name_witness:
  "ParseEvents exampleLib uriFirstWorker ''/s?q=5 7'' = Inr uriFirstEvent
   \<and> SubexpNames uriFirstRegexp ! 1 = ''uri''
   \<and> fmlookup uriFirstEvent ''uri'' = Some (VText ''/s?q=5'')
   \<and> SubexpNames uriFirstRegexp ! 2 = ''q''
   \<and> fmlookup uriFirstEvent ''q'' = Some (VInt 7)
   \<and> newKeyName ''q'' (fmupd ''q'' (VInt 7) fmempty :: unit event) = ''_q''
   \<and> fmlookup (ParseURI exampleLib uriFirstWorker ''/s?q=5'' (fmupd ''q'' (VInt 7) fmempty)) ''_q''
       = Some (VInt 5)
   \<and> ParseEvents exampleLib accessWorker accessLine = Inr accessEvent
   \<and> SubexpNames accessRegexp ! 3 = ''uri''
   \<and> ParseEventsLoop exampleLib accessWorker (SubexpNames accessRegexp) 0
        (take 3 [accessLine, ''10.0.0.1'', ''GET'', ''/search?q=5&lang=en'', ''200'']) fmempty
       = Inr (fmupd ''ip'' (VText ''10.0.0.1'') fmempty)
   \<and> fmlookup accessEvent ''q'' = Some (VInt 5)"
proof -
  let ?match = "[''/s?q=5 7'', ''/s?q=5'', ''7'']"
  have m: "FindStringSubmatch uriFirstRegexp ''/s?q=5 7'' = Some ?match"
    by (simp add: uriFirstRegexp_def)
  have i1: "\<not> shouldIgnore uriFirstWorker (SubexpNames uriFirstRegexp ! 1)"
    and i2: "\<not> shouldIgnore uriFirstWorker (SubexpNames uriFirstRegexp ! 2)"
    by (simp_all add: uriFirstRegexp_def uriFirstWorker_ignore)
  have len1: "1 < length ?match" and len2: "2 < length ?match"
    by simp_all
  have last1: "\<forall>j. 1 < j \<and> j < length ?match
      \<longrightarrow> SubexpNames uriFirstRegexp ! j \<noteq> SubexpNames uriFirstRegexp ! 1"
  proof (intro allI impI)
    fix j :: nat
    assume "1 < j \<and> j < length ?match"
    then have "j = 2"
      by simp
    then show "SubexpNames uriFirstRegexp ! j \<noteq> SubexpNames uriFirstRegexp ! 1"
      by (simp add: uriFirstRegexp_def)
  qed
  have last2: "\<forall>j. 2 < j \<and> j < length ?match
      \<longrightarrow> SubexpNames uriFirstRegexp ! j \<noteq> SubexpNames uriFirstRegexp ! 2"
    by auto
  note first = ParseEvents_top_level_own_name
    [OF uriFirstWorker_simps(1) m uriFirst_event len1 i1 last1]
  note second = ParseEvents_top_level_own_name
    [OF uriFirstWorker_simps(1) m uriFirst_event len2 i2 last2]
  have g1: "fmlookup uriFirstEvent (SubexpNames uriFirstRegexp ! 1)
      = Some (parseString exampleLib (?match ! 1) (Config uriFirstWorker))"
    by (rule first [THEN conjunct1])
  have g2: "fmlookup uriFirstEvent (SubexpNames uriFirstRegexp ! 2)
      = Some (parseString exampleLib (?match ! 2) (Config uriFirstWorker))"
    by (rule second [THEN conjunct1])
  txt \<open>The expansion of \<open>/s?q=5\<close> into an event that has the key \<open>q\<close>.\<close>
  let ?e = "fmupd ''q'' (VInt 7) fmempty :: unit event"
  have key: "newKeyName ''q'' (ParseURILoop exampleLib uriFirstWorker [] ?e) = ''_q''"
    by simp
  have "''/s?q=5'' \<noteq> []
      \<and> urlQuery exampleLib ''/s?q=5'' = Some ([] @ (''q'', [''5'']) # [])
      \<and> [''5''] \<noteq> []
      \<and> \<not> shouldIgnore uriFirstWorker (newKeyName ''q'' (ParseURILoop exampleLib uriFirstWorker [] ?e))"
    by (simp add: key example_urlQuery uriFirstWorker_ignore)
  with second [THEN conjunct2, THEN conjunct2, THEN conjunct2, THEN conjunct1]
  have "fmlookup (ParseURI exampleLib uriFirstWorker ''/s?q=5'' ?e)
        (newKeyName ''q'' (ParseURILoop exampleLib uriFirstWorker [] ?e))
      = Some (parseString exampleLib ([''5''] ! 0) (Config uriFirstWorker))"
    by blast
  then have g3: "fmlookup (ParseURI exampleLib uriFirstWorker ''/s?q=5'' ?e) ''_q'' = Some (VInt 5)"
    by (simp only: key) (simp add: example_parseString example_values)
  txt \<open>The access line: the parameter \<open>q\<close> of the group \<open>uri\<close>.\<close>
  let ?am = "[accessLine, ''10.0.0.1'', ''GET'', ''/search?q=5&lang=en'', ''200'']"
  have am: "FindStringSubmatch accessRegexp accessLine = Some ?am"
    and uri3: "SubexpNames accessRegexp ! 3 = ''uri''"
    by (simp_all add: accessRegexp_def)
  have ai: "\<not> shouldIgnore accessWorker (SubexpNames accessRegexp ! 4)"
    by (simp add: accessRegexp_def accessWorker_ignore)
  have alen: "4 < length ?am" and alen3: "3 < length ?am"
    by simp_all
  have alast: "\<forall>j. 4 < j \<and> j < length ?am
      \<longrightarrow> SubexpNames accessRegexp ! j \<noteq> SubexpNames accessRegexp ! 4"
    by auto
  note access = ParseEvents_top_level_own_name
    [OF accessWorker_simps(1) am access_event alen ai alast]
  from access [THEN conjunct2, THEN conjunct2, THEN conjunct2, THEN conjunct2, THEN conjunct2]
    alen3 uri3
  obtain e0 where
    prefix: "ParseEventsLoop exampleLib accessWorker (SubexpNames accessRegexp) 0 (take 3 ?am) fmempty
      = Inr e0" and
    params: "\<forall>pre k kvs post.
      (let e = (if \<not> shouldIgnore accessWorker ''uri''
                then fmupd ''uri'' (parseString exampleLib (?am ! 3) (Config accessWorker)) e0
                else e0);
           key = newKeyName k (ParseURILoop exampleLib accessWorker pre e)
       in ?am ! 3 \<noteq> [] \<and> urlQuery exampleLib (?am ! 3) = Some (pre @ (k, kvs) # post)
          \<and> kvs \<noteq> [] \<and> \<not> shouldIgnore accessWorker key
          \<and> (\<forall>j. 3 < j \<and> j < length ?am \<longrightarrow> SubexpNames accessRegexp ! j \<noteq> key)
          \<longrightarrow> fmlookup accessEvent key = Some (parseString exampleLib (kvs ! 0) (Config accessWorker)))"
    by blast
  have run3: "ParseEventsLoop exampleLib accessWorker (SubexpNames accessRegexp) 0 (take 3 ?am) fmempty
      = Inr (fmupd ''ip'' (VText ''10.0.0.1'') fmempty)"
    by (simp add: accessRegexp_def ParseEventsLoop_step groupStep_def accessWorker_ignore
        example_parseString example_values)
  with prefix have e0: "e0 = fmupd ''ip'' (VText ''10.0.0.1'') fmempty"
    by simp
  define e where "e = (if \<not> shouldIgnore accessWorker ''uri''
      then fmupd ''uri'' (parseString exampleLib (?am ! 3) (Config accessWorker)) e0 else e0)"
  define key where "key = newKeyName ''q'' (ParseURILoop exampleLib accessWorker [] e)"
  from params have imp: "?am ! 3 \<noteq> []
      \<and> urlQuery exampleLib (?am ! 3) = Some ([] @ (''q'', [''5'']) # [(''lang'', [''en''])])
      \<and> [''5''] \<noteq> [] \<and> \<not> shouldIgnore accessWorker key
      \<and> (\<forall>j. 3 < j \<and> j < length ?am \<longrightarrow> SubexpNames accessRegexp ! j \<noteq> key)
      \<longrightarrow> fmlookup accessEvent key = Some (parseString exampleLib ([''5''] ! 0) (Config accessWorker))"
    unfolding e_def key_def Let_def by blast
  have keyq: "key = ''q''"
    by (simp add: key_def e_def e0 accessWorker_ignore)
  have later: "\<forall>j. 3 < j \<and> j < length ?am \<longrightarrow> SubexpNames accessRegexp ! j \<noteq> key"
  proof (intro allI impI)
    fix j :: nat
    assume "3 < j \<and> j < length ?am"
    then have "j = 4"
      by simp
    then show "SubexpNames accessRegexp ! j \<noteq> key"
      by (simp add: accessRegexp_def keyq)
  qed
  have "?am ! 3 \<noteq> []
      \<and> urlQuery exampleLib (?am ! 3) = Some ([] @ (''q'', [''5'']) # [(''lang'', [''en''])])
      \<and> [''5''] \<noteq> [] \<and> \<not> shouldIgnore accessWorker key"
    by (simp add: keyq example_urlQuery accessWorker_ignore)
  with imp later have "fmlookup accessEvent key
      = Some (parseString exampleLib ([''5''] ! 0) (Config accessWorker))"
    by blast
  then have g4: "fmlookup accessEvent ''q'' = Some (VInt 5)"
    by (simp add: keyq example_parseString example_values)
  from g1 g2 g3 g4 uriFirst_event access_event uri3 run3 show ?thesis
    by (simp add: uriFirstRegexp_def example_parseString example_values)
qed

section \<open>Properties of Init and of the tail configuration\<close>

lemma Init_compile_failure:
  "regexpCompile L (GetString (Config worker) configParsePattern) = None \<Longrightarrow>
   GetString (Config worker) configParsePattern \<noteq> [] \<Longrightarrow>
   Init L worker = (worker, [(Warn, ''Could not compile Regex.'')])"
  by (simp add: Init_def Let_def)

lemma ParseEvents_nil_regex:
  "regex worker = None \<Longrightarrow>
   ParseEvents L worker line = Inl (Panic ''invalid memory address or nil pointer dereference'')"
  by (simp add: ParseEvents_def)

lemma convertConfig_Location:
  "Location (convertConfig worker) =
     (if GetBool (Config worker) ''tail.from_beginng'' then None
      else Some \<lparr>Offset = 0, Whence = SEEK_END\<rparr>)"
  by (simp add: convertConfig_def Let_def)

lemma convertConfig_ReOpen:
  "ReOpen (convertConfig worker) =
     (if IsSet (Config worker) ''tail.reopen'' then GetBool (Config worker) ''time.reopen''
      else False)"
  by (simp add: convertConfig_def Let_def configTailReopen_def)

subsection \<open>C1: a pattern that does not compile\<close>

text \<open>
  C1 says that after a failed compilation every call of \<open>ParseEvents\<close> returns an error.
  The code does not: with the pattern \<open>(\<close>, \<open>Init\<close> logs the warning and leaves
  \<open>regex\<close> nil, and \<open>ParseEvents\<close> on any line panics on the nil pointer.
\<close>

theorem Init_failure_then_ParseEvents_panics:
  "regexpCompile exampleLib ''('' = None
   \<and> Init exampleLib (idleWorker (patternViper ''('' []))
       = (idleWorker (patternViper ''('' []), [(Warn, ''Could not compile Regex.'')])
   \<and> ParseEvents exampleLib (fst (Init exampleLib (idleWorker (patternViper ''('' [])))) ''GET /''
       = Inl (Panic ''invalid memory address or nil pointer dereference'')"
proof -
  have c: "regexpCompile exampleLib ''('' = None"
    by (simp add: exampleLib_def accessPattern_def uriFirstPattern_def)
  have g: "GetString (Config (idleWorker (patternViper ''('' []))) configParsePattern = ''(''"
    by (simp add: idleWorker_def patternViper_def configParsePattern_def)
  have i: "Init exampleLib (idleWorker (patternViper ''('' []))
       = (idleWorker (patternViper ''('' []), [(Warn, ''Could not compile Regex.'')])"
    by (rule Init_compile_failure) (simp_all add: g c)
  have "regex (idleWorker (patternViper ''('' [])) = None"
    by (simp add: idleWorker_def)
  then have "ParseEvents exampleLib (idleWorker (patternViper ''('' [])) ''GET /''
       = Inl (Panic ''invalid memory address or nil pointer dereference'')"
    by (rule ParseEvents_nil_regex)
  with c i show ?thesis
    by simp
qed

subsection \<open>C2: the start position\<close>

text \<open>
  C2 says that reading starts at the start of the file when \<open>tail.from_beginning\<close> is
  set. The code reads the key \<open>tail.from_beginng\<close>: with \<open>tail.from_beginning\<close> set
  to true the location is still the end of the file.
\<close>

theorem convertConfig_from_beginning_still_end:
  "IsSet (boolViper ''tail.from_beginning'' True) ''tail.from_beginning''
   \<and> GetBool (boolViper ''tail.from_beginning'' True) ''tail.from_beginning''
   \<and> Location (convertConfig (idleWorker (boolViper ''tail.from_beginning'' True)))
       = Some \<lparr>Offset = 0, Whence = SEEK_END\<rparr>"
  by (simp add: convertConfig_Location idleWorker_def boolViper_def)

subsection \<open>C3: reopening\<close>

text \<open>
  C3 says that the reopen flag is the configured value of \<open>tail.reopen\<close> when that option
  is set. The code tests \<open>tail.reopen\<close> but reads the value of \<open>time.reopen\<close>: with
  \<open>tail.reopen\<close> set to true the flag is false.
\<close>

theorem convertConfig_reopen_not_taken:
  "IsSet (boolViper ''tail.reopen'' True) ''tail.reopen''
   \<and> GetBool (boolViper ''tail.reopen'' True) ''tail.reopen''
   \<and> ReOpen (convertConfig (idleWorker (boolViper ''tail.reopen'' True))) = False"
  by (simp add: convertConfig_ReOpen idleWorker_def boolViper_def)

section \<open>Properties of the sink worker\<close>

lemma startedSink_eq:
  "startedSink =
     (\<lparr>outFileName = ''a.jsonl'', out = Some 0\<rparr>,
      \<lparr>files = fmupd ''a.jsonl'' [] fmempty,
       handles = fmupd 0 (''a.jsonl'', False) fmempty,
       logs = []\<rparr>)"
  by (simp add: startedSink_def FileWorker_Init_def CachedFileHandle_def
      ConfiguredFileOutputName_def outputViper_def idleFileWorker_def emptyWorld_def
      OpenFile_def exampleOS_def freshHandle_def Let_def)

text \<open>
  A write whose open fails: nothing is written, the worker is unchanged, and the warning is
  the last entry of the log.
\<close>

lemma WorkObj_failed_open:
  assumes "jsonMarshal E obj = Some line"
    and "ConfiguredFileOutputName cfg \<noteq> outFileName w"
    and "openErr E (ConfiguredFileOutputName cfg) = Some err"
  shows "files (snd (WorkObj E cfg obj (w, world))) = files world
     \<and> fst (WorkObj E cfg obj (w, world)) = w
     \<and> last (logs (snd (WorkObj E cfg obj (w, world))))
         = (Warn, ''Unable to create output file '' @ ConfiguredFileOutputName cfg
                    @ '' because of '' @ err)"
  using assms
  by (auto simp: WorkObj_def CachedFileHandle_def OpenFile_def Close_def WriteString_def
      logAdd_def Let_def split: option.splits prod.splits)

subsection \<open>C5: the output handle\<close>

text \<open>
  C5 says that a write after a change of the configured path goes to a newly opened handle.
  The code does not after a failed open: three objects arrive, with the path \<open>a.jsonl\<close>,
  then a path that cannot be opened, then \<open>a.jsonl\<close> again. The second closes the handle
  of \<open>a.jsonl\<close> and keeps it, with its name, as the cached handle; the third finds the
  name unchanged, opens nothing and writes to the closed handle. The file holds the first
  object only, and nothing is logged about the third.
\<close>

theorem Work_loses_write_after_failed_reopen:
  "Work exampleOS
     [Obj (outputViper ''a.jsonl'') ''e1'',
      Obj (outputViper ''/nodir/b.jsonl'') ''e2'',
      Obj (outputViper ''a.jsonl'') ''e3'']
     startedSink
   = (\<lparr>outFileName = ''a.jsonl'', out = Some 0\<rparr>,
      \<lparr>files = fmupd ''a.jsonl'' (''e1'' @ [CHR 0x0A]) fmempty,
       handles = fmupd 0 (''a.jsonl'', True) fmempty,
       logs = [(Info, ''FileWorker starting work''),
               (Debug, ''Worker received''),
               (Debug, ''Worker received''),
               (Warn, ''Unable to create output file /nodir/b.jsonl because of no such file or directory''),
               (Debug, ''Worker received'')]\<rparr>)"
  by (simp add: startedSink_eq Work_def WorkObj_def CachedFileHandle_def
      ConfiguredFileOutputName_def outputViper_def OpenFile_def exampleOS_def freshHandle_def
      Close_def WriteString_def logAdd_def Let_def)

end
